theory Spec2Isabelle
  imports Main
begin

section \<open>Data model (src/src/index.ts, lines 4-18)\<close>

text \<open>
  A shallow embedding of \<^verbatim>\<open>src/src/index.ts\<close>: the class \<^verbatim>\<open>GitLogger\<close> with its
  three asynchronous methods, and the option handling of the command-line entry point.
  JavaScript strings are modelled as \<^typ>\<open>string\<close>; an optional string field
  (\<^verbatim>\<open>string | undefined\<close>) is a \<^typ>\<open>string option\<close>.
\<close>

record GitCommit =
  hash :: string
  author :: string
  date :: string
  message :: string
  diff :: string

record ApplyOptions =
  newAuthor :: "string option"
  newEmail :: "string option"
  newCommitter :: "string option"
  newCommitterEmail :: "string option"

text \<open>
  One entry of \<^verbatim>\<open>log.all\<close>, as the library \<^verbatim>\<open>simple-git\<close> returns it. The program reads
  \<^verbatim>\<open>hash\<close>, \<^verbatim>\<open>author_name\<close>, \<^verbatim>\<open>date\<close> and \<^verbatim>\<open>message\<close>; the other fields are dropped.
\<close>

record log_entry =
  le_hash :: string
  le_date :: string
  le_message :: string
  le_refs :: string
  le_body :: string
  le_author_name :: string
  le_author_email :: string

text \<open>The fields of \<^verbatim>\<open>GitLogger\<close>; the handle \<^verbatim>\<open>this.git\<close> is identified by its base directory \<^verbatim>\<open>repoPath\<close>.\<close>

record GitLogger =
  repoPath :: string
  currentTime :: string

text \<open>The parsed command line (\<^verbatim>\<open>program.opts()\<close>, lines 160-174).\<close>

record CliOptions =
  cli_path :: string
  cli_time :: "string option"
  cli_apply :: "string option"
  cli_author :: "string option"
  cli_email :: "string option"
  cli_committer :: "string option"
  cli_committerEmail :: "string option"

section \<open>The outside world\<close>

text \<open>
  Every call into \<^verbatim>\<open>simple-git\<close> is awaited and may reject. An error is a value; a call
  returns \<open>Inl\<close> of the error or \<open>Inr\<close> of its result, together with the new state of the
  world (both repositories and the file system), about which nothing is assumed.
\<close>

datatype error = GitError string

record 'w simple_git =
  sg_simpleGit :: "string \<Rightarrow> 'w \<Rightarrow> error option"
  sg_checkIsRepo :: "string \<Rightarrow> 'w \<Rightarrow> (error + bool) \<times> 'w"
  sg_log :: "string \<Rightarrow> 'w \<Rightarrow> (error + log_entry list) \<times> 'w"
  sg_show :: "string \<Rightarrow> string list \<Rightarrow> 'w \<Rightarrow> (error + string) \<times> 'w"
  sg_raw :: "string \<Rightarrow> string list \<Rightarrow> 'w \<Rightarrow> (error + string) \<times> 'w"

text \<open>
  What the program does to the outside, in order: each library call with the handle's
  base directory, its arguments and what it returned, and each console line.
  \<^verbatim>\<open>console.log\<close> writes to standard output, \<^verbatim>\<open>console.error\<close> to standard error.
\<close>

datatype event =
    SimpleGit string "error option"
  | CheckIsRepo string "error + bool"
  | Log string "error + log_entry list"
  | Show string "string list" "error + string"
  | Raw string "string list" "error + string"
  | ConsoleLog string
  | ConsoleError string error

record 'w state =
  world :: 'w
  trace :: "event list"

definition emit :: "event \<Rightarrow> 'w state \<Rightarrow> 'w state" where
  "emit ev s = s\<lparr>trace := trace s @ [ev]\<rparr>"

definition console_log :: "string \<Rightarrow> 'w state \<Rightarrow> 'w state" where
  "console_log line s = emit (ConsoleLog line) s"

definition console_error :: "string \<Rightarrow> error \<Rightarrow> 'w state \<Rightarrow> 'w state" where
  "console_error line e s = emit (ConsoleError line e) s"

definition simpleGit :: "'w simple_git \<Rightarrow> string \<Rightarrow> 'w state \<Rightarrow> (error + string) \<times> 'w state" where
  "simpleGit E baseDir s =
     (case sg_simpleGit E baseDir (world s) of
        Some e \<Rightarrow> (Inl e, emit (SimpleGit baseDir (Some e)) s)
      | None \<Rightarrow> (Inr baseDir, emit (SimpleGit baseDir None) s))"

definition checkIsRepo :: "'w simple_git \<Rightarrow> string \<Rightarrow> 'w state \<Rightarrow> (error + bool) \<times> 'w state" where
  "checkIsRepo E git s =
     (case sg_checkIsRepo E git (world s) of
        (r, w) \<Rightarrow> (r, \<lparr>world = w, trace = trace s @ [CheckIsRepo git r]\<rparr>))"

definition git_log :: "'w simple_git \<Rightarrow> string \<Rightarrow> 'w state \<Rightarrow> (error + log_entry list) \<times> 'w state" where
  "git_log E git s =
     (case sg_log E git (world s) of
        (r, w) \<Rightarrow> (r, \<lparr>world = w, trace = trace s @ [Log git r]\<rparr>))"

definition git_show :: "'w simple_git \<Rightarrow> string \<Rightarrow> string list \<Rightarrow> 'w state \<Rightarrow> (error + string) \<times> 'w state" where
  "git_show E git args s =
     (case sg_show E git args (world s) of
        (r, w) \<Rightarrow> (r, \<lparr>world = w, trace = trace s @ [Show git args r]\<rparr>))"

definition raw :: "'w simple_git \<Rightarrow> string \<Rightarrow> string list \<Rightarrow> 'w state \<Rightarrow> (error + string) \<times> 'w state" where
  "raw E git args s =
     (case sg_raw E git args (world s) of
        (r, w) \<Rightarrow> (r, \<lparr>world = w, trace = trace s @ [Raw git args r]\<rparr>))"

section \<open>JavaScript values\<close>

text \<open>A string is truthy when it is defined and not empty.\<close>

definition truthy :: "string option \<Rightarrow> bool" where
  "truthy v = (case v of None \<Rightarrow> False | Some t \<Rightarrow> t \<noteq> [])"

text \<open>Interpolation of an optional string in a template literal.\<close>

definition interpolate :: "string option \<Rightarrow> string" where
  "interpolate v = (case v of None \<Rightarrow> ''undefined'' | Some t \<Rightarrow> t)"

definition NL :: string where
  "NL = [CHR 0x0A]"

text \<open>The check mark U+2713 of the success line, as the three bytes of its UTF-8 encoding.\<close>

definition check_mark :: string where
  "check_mark = [CHR 0xE2, CHR 0x9C, CHR 0x93]"

section \<open>getCommits (lines 32-63)\<close>

fun getCommits_loop ::
  "'w simple_git \<Rightarrow> string \<Rightarrow> log_entry list \<Rightarrow> GitCommit list \<Rightarrow> 'w state
    \<Rightarrow> (error + GitCommit list) \<times> 'w state" where
  "getCommits_loop E git [] commits s = (Inr commits, s)"
| "getCommits_loop E git (commit # rest) commits s =
     (case git_show E git [le_hash commit] s of
        (Inl e, s1) \<Rightarrow> (Inl e, s1)
      | (Inr d, s1) \<Rightarrow>
          getCommits_loop E git rest
            (commits @ [\<lparr>hash = le_hash commit, author = le_author_name commit,
                         date = le_date commit, message = le_message commit, diff = d\<rparr>]) s1)"

text \<open>The body of the \<^verbatim>\<open>try\<close> block.\<close>

definition getCommits_try ::
  "'w simple_git \<Rightarrow> GitLogger \<Rightarrow> 'w state \<Rightarrow> (error + GitCommit list) \<times> 'w state" where
  "getCommits_try E this s =
     (case checkIsRepo E (repoPath this) s of
        (Inl e, s1) \<Rightarrow> (Inl e, s1)
      | (Inr isRepo, s1) \<Rightarrow>
          if \<not> isRepo then (Inr [], console_log (''Not a git repository: '' @ repoPath this) s1)
          else (case git_log E (repoPath this) s1 of
                  (Inl e, s2) \<Rightarrow> (Inl e, s2)
                | (Inr all, s2) \<Rightarrow> getCommits_loop E (repoPath this) all [] s2))"

definition getCommits ::
  "'w simple_git \<Rightarrow> GitLogger \<Rightarrow> 'w state \<Rightarrow> (error + GitCommit list) \<times> 'w state" where
  "getCommits E this s =
     (case getCommits_try E this s of
        (Inl e, s1) \<Rightarrow> (Inr [], console_error ''Error reading git history:'' e s1)
      | (Inr commits, s1) \<Rightarrow> (Inr commits, s1))"

section \<open>printCommitHistory (lines 65-85)\<close>

fun printCommitHistory_loop :: "GitCommit list \<Rightarrow> 'w state \<Rightarrow> 'w state" where
  "printCommitHistory_loop [] s = s"
| "printCommitHistory_loop (commit # rest) s =
     printCommitHistory_loop rest
       (console_log (''----------------------------------------'' @ NL)
       (console_log (diff commit)
       (console_log (NL @ ''Diff:'' @ NL)
       (console_log (''Message: '' @ message commit)
       (console_log (''Date: '' @ date commit)
       (console_log (''Author: '' @ author commit)
       (console_log (''Commit: '' @ hash commit)
       (console_log ''----------------------------------------'' s))))))))"

definition printCommitHistory ::
  "'w simple_git \<Rightarrow> GitLogger \<Rightarrow> 'w state \<Rightarrow> (error + unit) \<times> 'w state" where
  "printCommitHistory E this s =
     (case getCommits E this s of
        (Inl e, s1) \<Rightarrow> (Inl e, s1)
      | (Inr commits, s1) \<Rightarrow>
          let s2 = console_log (''Git History for '' @ repoPath this @ '' as of ''
                                @ currentTime this @ '':'' @ NL) s1
          in if length commits = 0
             then (Inr (), console_log ''No commits found or not a git repository.'' s2)
             else (Inr (), printCommitHistory_loop commits s2))"

section \<open>applyToRepo (lines 87-155)\<close>

text \<open>Lines 104-108: the object \<^verbatim>\<open>env\<close>.\<close>

definition committerEnv :: "ApplyOptions \<Rightarrow> (string \<rightharpoonup> string)" where
  "committerEnv options =
     (if truthy (newCommitter options) \<and> truthy (newCommitterEmail options)
      then [''GIT_COMMITTER_NAME'' \<mapsto> interpolate (newCommitter options),
            ''GIT_COMMITTER_EMAIL'' \<mapsto> interpolate (newCommitterEmail options)]
      else Map.empty)"

text \<open>Line 115: the constant \<^verbatim>\<open>patchPath\<close>.\<close>

definition patchPath :: "GitLogger \<Rightarrow> GitCommit \<Rightarrow> string" where
  "patchPath this commit = repoPath this @ ''/temp_'' @ hash commit @ ''.patch''"

text \<open>Lines 116-118: the arguments of the patch generation.\<close>

definition formatPatchArgs :: "GitLogger \<Rightarrow> GitCommit \<Rightarrow> string list" where
  "formatPatchArgs this commit =
     [''format-patch'', ''--stdout'', ''-1'', ''--full-index'', ''--binary'', ''--date-order'',
      hash commit, ''-o'', repoPath this]"

text \<open>Lines 121-133: the array \<^verbatim>\<open>amArgs\<close>, after its last \<^verbatim>\<open>push\<close>.\<close>

definition amArgs :: "GitLogger \<Rightarrow> ApplyOptions \<Rightarrow> GitCommit \<Rightarrow> string list" where
  "amArgs this options commit =
     (let args = [''--committer-date-is-author-date'', ''--ignore-space-change'',
                  ''--ignore-whitespace'', ''--3way''];
          args = (if truthy (newAuthor options) \<and> truthy (newEmail options)
                  then args @ [''--author'', interpolate (newAuthor options) @ '' <''
                                             @ interpolate (newEmail options) @ ''>'']
                  else args)
      in args @ [patchPath this commit])"

text \<open>Lines 142-148: the success line.\<close>

definition successLine :: "ApplyOptions \<Rightarrow> GitCommit \<Rightarrow> string" where
  "successLine options commit =
     (let authorInfo = (if truthy (newAuthor options)
                        then ''new author: '' @ interpolate (newAuthor options)
                        else ''original author: '' @ author commit);
          committerInfo = (if truthy (newCommitter options)
                           then ''new committer: '' @ interpolate (newCommitter options)
                           else ''original committer'')
      in check_mark @ '' Successfully applied with '' @ authorInfo @ '', '' @ committerInfo
         @ '' and original date: '' @ date commit @ NL)"

text \<open>Lines 114-148: the body of the \<^verbatim>\<open>try\<close> block of one iteration.\<close>

definition applyCommit_try ::
  "'w simple_git \<Rightarrow> GitLogger \<Rightarrow> string \<Rightarrow> ApplyOptions \<Rightarrow> GitCommit \<Rightarrow> 'w state
    \<Rightarrow> (error + unit) \<times> 'w state" where
  "applyCommit_try E this targetGit options commit s =
     (case raw E (repoPath this) (formatPatchArgs this commit) s of
        (Inl e, s1) \<Rightarrow> (Inl e, s1)
      | (Inr _, s1) \<Rightarrow>
          let s2 = console_log (''Applying commit: '' @ message commit @ '' ('' @ date commit
                                @ '')'') s1
          in (case raw E targetGit (amArgs this options commit) s2 of
                (Inl e, s3) \<Rightarrow> (Inl e, s3)
              | (Inr _, s3) \<Rightarrow>
                  (case raw E targetGit [''clean'', ''-f'', patchPath this commit] s3 of
                     (Inl e, s4) \<Rightarrow> (Inl e, s4)
                   | (Inr _, s4) \<Rightarrow> (Inr (), console_log (successLine options commit) s4))))"

text \<open>Lines 113-153: one iteration, with its \<^verbatim>\<open>catch\<close> block.\<close>

definition applyCommit ::
  "'w simple_git \<Rightarrow> GitLogger \<Rightarrow> string \<Rightarrow> ApplyOptions \<Rightarrow> GitCommit \<Rightarrow> 'w state
    \<Rightarrow> (error + unit) \<times> 'w state" where
  "applyCommit E this targetGit options commit s =
     (case applyCommit_try E this targetGit options commit s of
        (Inr u, s1) \<Rightarrow> (Inr (), s1)
      | (Inl e, s1) \<Rightarrow>
          let s2 = console_error (''Failed to apply commit '' @ hash commit @ '' from ''
                                  @ date commit @ '':'') e s1
          in (case raw E targetGit [''am'', ''--abort''] s2 of
                (Inl e', s3) \<Rightarrow> (Inl e', s3)
              | (Inr _, s3) \<Rightarrow> (Inr (), s3)))"

fun applyToRepo_loop ::
  "'w simple_git \<Rightarrow> GitLogger \<Rightarrow> string \<Rightarrow> ApplyOptions \<Rightarrow> GitCommit list \<Rightarrow> 'w state
    \<Rightarrow> (error + unit) \<times> 'w state" where
  "applyToRepo_loop E this targetGit options [] s = (Inr (), s)"
| "applyToRepo_loop E this targetGit options (commit # rest) s =
     (case applyCommit E this targetGit options commit s of
        (Inl e, s1) \<Rightarrow> (Inl e, s1)
      | (Inr _, s1) \<Rightarrow> applyToRepo_loop E this targetGit options rest s1)"

definition applyToRepo ::
  "'w simple_git \<Rightarrow> GitLogger \<Rightarrow> string \<Rightarrow> ApplyOptions \<Rightarrow> 'w state
    \<Rightarrow> (error + unit) \<times> 'w state" where
  "applyToRepo E this targetRepoPath options s =
     (case getCommits E this s of
        (Inl e, s1) \<Rightarrow> (Inl e, s1)
      | (Inr commits, s1) \<Rightarrow>
          if length commits = 0 then (Inr (), console_log ''No commits to apply.'' s1)
          else (case simpleGit E targetRepoPath s1 of
                  (Inl e, s2) \<Rightarrow> (Inl e, s2)
                | (Inr targetGit, s2) \<Rightarrow>
                    (case checkIsRepo E targetGit s2 of
                       (Inl e, s3) \<Rightarrow> (Inl e, s3)
                     | (Inr isRepo, s3) \<Rightarrow>
                         if \<not> isRepo
                         then (Inr (), console_log (''Target is not a git repository: ''
                                                    @ targetRepoPath) s3)
                         else let env = committerEnv options;
                                  s4 = console_log (''Applying commits to '' @ targetRepoPath
                                                    @ ''...'' @ NL) s3
                              in applyToRepo_loop E this targetGit options commits s4)))"

section \<open>The entry point's options (lines 179-188)\<close>

definition buildApplyOptions :: "CliOptions \<Rightarrow> ApplyOptions" where
  "buildApplyOptions options =
     (let applyOptions = \<lparr>newAuthor = None, newEmail = None,
                          newCommitter = None, newCommitterEmail = None\<rparr>;
          applyOptions = (if truthy (cli_author options) \<and> truthy (cli_email options)
                          then applyOptions\<lparr>newAuthor := cli_author options,
                                            newEmail := cli_email options\<rparr>
                          else applyOptions)
      in if truthy (cli_committer options) \<and> truthy (cli_committerEmail options)
         then applyOptions\<lparr>newCommitter := cli_committer options,
                           newCommitterEmail := cli_committerEmail options\<rparr>
         else applyOptions)"

section \<open>Vocabulary of the properties\<close>

text \<open>The events that a run from state \<open>s\<close> to state \<open>s'\<close> has added to the trace.\<close>

definition events_since :: "'w state \<Rightarrow> 'w state \<Rightarrow> event list" where
  "events_since s s' = drop (length (trace s)) (trace s')"

text \<open>The error of a library call that rejected.\<close>

fun failure :: "event \<Rightarrow> error option" where
  "failure (SimpleGit g r) = r"
| "failure (CheckIsRepo g r) = (case r of Inl e \<Rightarrow> Some e | Inr _ \<Rightarrow> None)"
| "failure (Log g r) = (case r of Inl e \<Rightarrow> Some e | Inr _ \<Rightarrow> None)"
| "failure (Show g args r) = (case r of Inl e \<Rightarrow> Some e | Inr _ \<Rightarrow> None)"
| "failure (Raw g args r) = (case r of Inl e \<Rightarrow> Some e | Inr _ \<Rightarrow> None)"
| "failure (ConsoleLog line) = None"
| "failure (ConsoleError line e) = None"

text \<open>The library calls among the events, as opposed to the console lines.\<close>

fun git_call :: "event \<Rightarrow> bool" where
  "git_call (ConsoleLog line) = False"
| "git_call (ConsoleError line e) = False"
| "git_call ev = True"

text \<open>
  Two states agree on everything but the console: the same world, and the same library
  calls with the same arguments and answers in the same order.
\<close>

definition same_calls :: "'w state \<Rightarrow> 'w state \<Rightarrow> bool" where
  "same_calls s t \<longleftrightarrow> world s = world t \<and> filter git_call (trace s) = filter git_call (trace t)"

text \<open>
  The record that \<^verbatim>\<open>getCommits\<close> pushes for a log entry and the answer of its lookup
  (lines 49-55).
\<close>

definition mkCommit :: "log_entry \<Rightarrow> string \<Rightarrow> GitCommit" where
  "mkCommit c d = \<lparr>hash = le_hash c, author = le_author_name c, date = le_date c, message = le_message c, diff = d\<rparr>"

text \<open>
  The template of \<^verbatim>\<open>printCommitHistory\<close>, in the words of the specification: separator
  line, hash, author, date, message, the label of the diff between two blank lines, the
  diff, separator line.
\<close>

definition separator :: string where
  "separator = ''----------------------------------------''"

definition commit_template :: "GitCommit \<Rightarrow> string list" where
  "commit_template commit =
     [separator,
      ''Commit: '' @ hash commit,
      ''Author: '' @ author commit,
      ''Date: '' @ date commit,
      ''Message: '' @ message commit,
      NL @ ''Diff:'' @ NL,
      diff commit,
      separator @ NL]"

text \<open>The header line of \<^verbatim>\<open>printCommitHistory\<close> (line 68).\<close>

definition history_header :: "GitLogger \<Rightarrow> string" where
  "history_header this =
     ''Git History for '' @ repoPath this @ '' as of '' @ currentTime this @ '':'' @ NL"

text \<open>The two console lines of an iteration besides the success line (lines 136 and 150).\<close>

definition applying_line :: "GitCommit \<Rightarrow> string" where
  "applying_line commit = ''Applying commit: '' @ message commit @ '' ('' @ date commit @ '')''"

definition failed_line :: "GitCommit \<Rightarrow> string" where
  "failed_line commit = ''Failed to apply commit '' @ hash commit @ '' from '' @ date commit @ '':''"

text \<open>
  The iterations that the loop of \<^verbatim>\<open>applyToRepo\<close> runs: each commit it reaches, with
  the state in which its iteration starts. An iteration that rejects ends the loop.
\<close>

fun iterations ::
  "'w simple_git \<Rightarrow> GitLogger \<Rightarrow> string \<Rightarrow> ApplyOptions \<Rightarrow> GitCommit list \<Rightarrow> 'w state
    \<Rightarrow> (GitCommit \<times> 'w state) list" where
  "iterations E this tg options [] s = []"
| "iterations E this tg options (commit # rest) s =
     (commit, s) # (case applyCommit E this tg options commit s of
                      (Inl e, s1) \<Rightarrow> []
                    | (Inr u, s1) \<Rightarrow> iterations E this tg options rest s1)"

section \<open>A fixture\<close>

text \<open>
  A library whose answers are fixed functions of the arguments; its world counts the
  calls made so far.
\<close>

definition fixture_git ::
  "(string \<Rightarrow> error + bool) \<Rightarrow> (error + log_entry list) \<Rightarrow> (string list \<Rightarrow> error + string)
    \<Rightarrow> (string \<Rightarrow> string list \<Rightarrow> error + string) \<Rightarrow> nat simple_git" where
  "fixture_git isRepo entries lookup run =
     \<lparr>sg_simpleGit = (\<lambda>baseDir w. None),
      sg_checkIsRepo = (\<lambda>git w. (isRepo git, Suc w)),
      sg_log = (\<lambda>git w. (entries, Suc w)),
      sg_show = (\<lambda>git args w. (lookup args, Suc w)),
      sg_raw = (\<lambda>git args w. (run git args, Suc w))\<rparr>"

text \<open>A log of two commits, newest first, and a reader on \<^verbatim>\<open>/src\<close>.\<close>

definition fixture_entries :: "log_entry list" where
  "fixture_entries =
     [\<lparr>le_hash = ''b2'', le_date = ''2024-02-02'', le_message = ''second'', le_refs = ''HEAD'',
       le_body = [], le_author_name = ''Bob'', le_author_email = ''bob@example.org''\<rparr>,
      \<lparr>le_hash = ''a1'', le_date = ''2024-01-01'', le_message = ''first'', le_refs = [],
       le_body = [], le_author_name = ''Ann'', le_author_email = ''ann@example.org''\<rparr>]"

definition fixture_logger :: GitLogger where
  "fixture_logger = \<lparr>repoPath = ''/src'', currentTime = ''now''\<rparr>"

definition fixture_start :: "nat state" where
  "fixture_start = \<lparr>world = 0, trace = []\<rparr>"

text \<open>A lookup that always succeeds, and one that fails on the commit \<^verbatim>\<open>a1\<close>.\<close>

definition fixture_show :: "string list \<Rightarrow> error + string" where
  "fixture_show args = Inr (''diff --git '' @ concat args)"

definition fixture_show_failing :: "string list \<Rightarrow> error + string" where
  "fixture_show_failing args =
     (if args = [''a1''] then Inl (GitError ''bad object a1'') else fixture_show args)"

definition fixture_options :: ApplyOptions where
  "fixture_options = \<lparr>newAuthor = None, newEmail = None,
                       newCommitter = None, newCommitterEmail = None\<rparr>"

text \<open>A \<^verbatim>\<open>raw\<close> that always succeeds and answers a patch generation with the patch text.\<close>

definition fixture_run :: "string \<Rightarrow> string list \<Rightarrow> error + string" where
  "fixture_run git args = (if take 1 args = [''format-patch''] then Inr ''From b2 ...'' else Inr [])"

definition fixture_commit :: GitCommit where
  "fixture_commit = \<lparr>hash = ''b2'', author = ''Bob'', date = ''2024-02-02'',
                      message = ''second'', diff = ''diff --git b2''\<rparr>"

definition fixture_ok :: "nat simple_git" where
  "fixture_ok = fixture_git (\<lambda>git. Inr True) (Inr fixture_entries) fixture_show fixture_run"

text \<open>
  A library whose lookups depend on the state of the world: they fail once more than ten
  calls have been made.
\<close>

definition fixture_stateful :: "nat simple_git" where
  "fixture_stateful =
     \<lparr>sg_simpleGit = (\<lambda>baseDir w. None),
      sg_checkIsRepo = (\<lambda>git w. (Inr True, Suc w)),
      sg_log = (\<lambda>git w. (Inr fixture_entries, Suc w)),
      sg_show = (\<lambda>git args w. (if 10 < w then Inl (GitError ''lookup failed'')
                                 else fixture_show args, Suc w)),
      sg_raw = (\<lambda>git args w. (Inr [], Suc w))\<rparr>"



text \<open>
  A \<^verbatim>\<open>raw\<close> whose patch generation fails and whose \<^verbatim>\<open>am --abort\<close> fails as well, as
  git's does when no patch application is in progress.
\<close>

definition fixture_run_failing :: "string \<Rightarrow> string list \<Rightarrow> error + string" where
  "fixture_run_failing git args =
     (if take 1 args = [''format-patch'']
      then Inl (GitError ''format-patch failed'')
      else if args = [''am'', ''--abort'']
      then Inl (GitError ''Resolve operation not in progress, we are not resuming.'')
      else Inr [])"

definition fixture_failing :: "nat simple_git" where
  "fixture_failing =
     fixture_git (\<lambda>git. Inr True) (Inr fixture_entries) fixture_show fixture_run_failing"



section \<open>Basic facts\<close>

text \<open>Console output leaves the world alone and appends one event.\<close>

lemma emit_simps [simp]: "world (emit ev s) = world s" "trace (emit ev s) = trace s @ [ev]"
  by (simp_all add: emit_def)

lemma console_simps [simp]:
  "world (console_log l s) = world s" "trace (console_log l s) = trace s @ [ConsoleLog l]"
  "world (console_error l e s) = world s" "trace (console_error l e s) = trace s @ [ConsoleError l e]"
  by (simp_all add: console_log_def console_error_def)

lemma map_fst_zip_fun:
  "length ds = length xs \<Longrightarrow> map (\<lambda>p. f (fst p)) (zip xs ds) = map f xs"
  by (induction xs ds rule: list_induct2') simp_all

lemmas fixture_defs =
  fixture_git_def fixture_entries_def fixture_logger_def fixture_start_def fixture_show_def
  fixture_show_failing_def

lemmas call_defs =
  simpleGit_def checkIsRepo_def git_log_def git_show_def raw_def

lemmas getCommits_defs = getCommits_def getCommits_try_def

lemmas apply_defs =
  applyCommit_def applyCommit_try_def formatPatchArgs_def amArgs_def patchPath_def
  successLine_def applying_line_def failed_line_def

lemmas fixture_apply_defs =
  fixture_ok_def fixture_git_def fixture_logger_def fixture_start_def fixture_commit_def
  fixture_options_def fixture_run_def

section \<open>Properties of getCommits\<close>

text \<open>
  The loop of \<^verbatim>\<open>getCommits\<close>, for every library: either every lookup of the run
  succeeds, and there is one record and one \<^verbatim>\<open>show\<close> event per log entry, in order, or
  the loop rejects with the error of the lookup that failed, which is its last event.
\<close>

lemma getCommits_loop_result:
  assumes "getCommits_loop E git entries acc s = (r, s')"
  shows "(\<exists>ds. length ds = length entries \<and>
            r = Inr (acc @ map2 mkCommit entries ds) \<and>
            trace s' = trace s @ map2 (\<lambda>c d. Show git [le_hash c] (Inr d)) entries ds)
       \<or> (\<exists>e evs (c::log_entry). r = Inl e \<and> trace s' = trace s @ evs @ [Show git [le_hash c] (Inl e)])"
  using assms
proof (induction entries arbitrary: acc s)
  case Nil
  then show ?case by simp
next
  case (Cons c rest)
  obtain x w where sh: "sg_show E git [le_hash c] (world s) = (x, w)"
    by (cases "sg_show E git [le_hash c] (world s)")
  let ?s1 = "\<lparr>world = w, trace = trace s @ [Show git [le_hash c] x]\<rparr>"
  show ?case
  proof (cases x)
    case (Inl e)
    with sh Cons.prems have "r = Inl e \<and> trace s' = trace s @ [] @ [Show git [le_hash c] (Inl e)]"
      by (auto simp: git_show_def)
    then have "\<exists>e evs (c::log_entry). r = Inl e \<and> trace s' = trace s @ evs @ [Show git [le_hash c] (Inl e)]"
      by - ((rule exI)+, assumption)
    then show ?thesis by (rule disjI2)
  next
    case (Inr d)
    with sh Cons.prems have run: "getCommits_loop E git rest (acc @ [mkCommit c d]) ?s1 = (r, s')"
      by (simp add: git_show_def mkCommit_def)
    from Cons.IH [OF run] show ?thesis
    proof (elim disjE exE conjE)
      fix ds
      assume ds: "length ds = length rest"
        "r = Inr ((acc @ [mkCommit c d]) @ map2 mkCommit rest ds)"
        "trace s' = trace ?s1 @ map2 (\<lambda>c d. Show git [le_hash c] (Inr d)) rest ds"
      have "length (d # ds) = length (c # rest) \<and>
            r = Inr (acc @ map2 mkCommit (c # rest) (d # ds)) \<and>
            trace s' = trace s @ map2 (\<lambda>c d. Show git [le_hash c] (Inr d)) (c # rest) (d # ds)"
        using ds Inr by simp
      then have "\<exists>ds. length ds = length (c # rest) \<and>
            r = Inr (acc @ map2 mkCommit (c # rest) ds) \<and>
            trace s' = trace s @ map2 (\<lambda>c d. Show git [le_hash c] (Inr d)) (c # rest) ds"
        by - ((rule exI)+, assumption)
      then show ?thesis by (rule disjI1)
    next
      fix e evs and c' :: log_entry
      assume f: "r = Inl e" "trace s' = trace ?s1 @ evs @ [Show git [le_hash c'] (Inl e)]"
      then have "r = Inl e \<and>
          trace s' = trace s @ (Show git [le_hash c] x # evs) @ [Show git [le_hash c'] (Inl e)]"
        by simp
      then have "\<exists>e evs (c::log_entry). r = Inl e \<and> trace s' = trace s @ evs @ [Show git [le_hash c] (Inl e)]"
        by - ((rule exI)+, assumption)
      then show ?thesis by (rule disjI2)
    qed
  qed
qed

text \<open>
  The loop of \<^verbatim>\<open>getCommits\<close> in general: it only makes \<^verbatim>\<open>show\<close> calls, none of them
  failed when it returns a list, and when it rejects the error is that of the failed call.
\<close>

lemma getCommits_loop_events:
  assumes "getCommits_loop E git entries acc s = (r, s')"
  shows "\<exists>evs. trace s' = trace s @ evs \<and>
           (\<forall>ev\<in>set evs. \<exists>args x. ev = Show git args x) \<and>
           (case r of Inr commits \<Rightarrow> \<forall>ev\<in>set evs. failure ev = None
                    | Inl e \<Rightarrow> \<forall>ev\<in>set evs. \<forall>e'. failure ev = Some e' \<longrightarrow> e' = e)"
  using assms
proof (induction entries arbitrary: acc s)
  case Nil
  then show ?case by auto
next
  case (Cons c rest)
  obtain x w where sh: "sg_show E git [le_hash c] (world s) = (x, w)"
    by (cases "sg_show E git [le_hash c] (world s)")
  let ?s1 = "\<lparr>world = w, trace = trace s @ [Show git [le_hash c] x]\<rparr>"
  show ?case
  proof (cases x)
    case (Inl e)
    with sh Cons.prems have "r = Inl e" "s' = ?s1"
      by (simp_all add: git_show_def)
    then show ?thesis using Inl by auto
  next
    case (Inr d)
    with sh Cons.prems have
      "getCommits_loop E git rest (acc @ [\<lparr>hash = le_hash c, author = le_author_name c,
          date = le_date c, message = le_message c, diff = d\<rparr>]) ?s1 = (r, s')"
      by (simp add: git_show_def)
    from Cons.IH[OF this] obtain evs where evs: "trace s' = trace ?s1 @ evs"
      "\<forall>ev\<in>set evs. \<exists>args x. ev = Show git args x"
      "case r of Inr commits \<Rightarrow> \<forall>ev\<in>set evs. failure ev = None
               | Inl e \<Rightarrow> \<forall>ev\<in>set evs. \<forall>e'. failure ev = Some e' \<longrightarrow> e' = e"
      by blast
    show ?thesis
      apply (rule exI[of _ "Show git [le_hash c] x # evs"])
      using evs Inr by (auto split: sum.splits)
  qed
qed

lemma getCommits_try_events:
  assumes "getCommits_try E this s = (r, s')"
  shows "\<exists>evs. trace s' = trace s @ evs \<and>
           (\<forall>ev\<in>set evs. (\<exists>x. ev = CheckIsRepo (repoPath this) x) \<or> (\<exists>x. ev = Log (repoPath this) x)
                \<or> (\<exists>args x. ev = Show (repoPath this) args x)
                \<or> ev = ConsoleLog (''Not a git repository: '' @ repoPath this)) \<and>
           (CheckIsRepo (repoPath this) (Inr False) \<in> set evs \<longrightarrow>
              r = Inr [] \<and> ConsoleLog (''Not a git repository: '' @ repoPath this) \<in> set evs) \<and>
           (case r of Inr commits \<Rightarrow> \<forall>ev\<in>set evs. failure ev = None
                    | Inl e \<Rightarrow> \<forall>ev\<in>set evs. \<forall>e'. failure ev = Some e' \<longrightarrow> e' = e)"
proof -
  let ?p = "repoPath this"
  obtain x w where ck: "sg_checkIsRepo E ?p (world s) = (x, w)"
    by (cases "sg_checkIsRepo E ?p (world s)")
  let ?s1 = "\<lparr>world = w, trace = trace s @ [CheckIsRepo ?p x]\<rparr>"
  show ?thesis
  proof (cases x)
    case (Inl e)
    with ck assms have "r = Inl e" "s' = ?s1"
      by (simp_all add: getCommits_try_def checkIsRepo_def)
    then show ?thesis using Inl by auto
  next
    case (Inr isRepo)
    show ?thesis
    proof (cases isRepo)
      case False
      with Inr ck assms have "r = Inr []" "s' = console_log (''Not a git repository: '' @ ?p) ?s1"
        by (simp_all add: getCommits_try_def checkIsRepo_def)
      then show ?thesis using Inr False by auto
    next
      case True
      obtain y w2 where lg: "sg_log E ?p w = (y, w2)"
        by (cases "sg_log E ?p w")
      let ?s2 = "\<lparr>world = w2, trace = trace ?s1 @ [Log ?p y]\<rparr>"
      show ?thesis
      proof (cases y)
        case (Inl e)
        with True Inr ck lg assms have "r = Inl e" "s' = ?s2"
          by (simp_all add: getCommits_try_def checkIsRepo_def git_log_def)
        then show ?thesis using Inl Inr True by auto
      next
        case (Inr all)
        with True \<open>x = Inr isRepo\<close> ck lg assms have "getCommits_loop E ?p all [] ?s2 = (r, s')"
          by (simp add: getCommits_try_def checkIsRepo_def git_log_def)
        from getCommits_loop_events[OF this] obtain evs where evs: "trace s' = trace ?s2 @ evs"
          "\<forall>ev\<in>set evs. \<exists>args x. ev = Show ?p args x"
          "case r of Inr commits \<Rightarrow> \<forall>ev\<in>set evs. failure ev = None
               | Inl e \<Rightarrow> \<forall>ev\<in>set evs. \<forall>e'. failure ev = Some e' \<longrightarrow> e' = e"
          by blast
        show ?thesis
          apply (rule exI[of _ "CheckIsRepo ?p x # Log ?p y # evs"])
          using evs Inr True \<open>x = Inr isRepo\<close> by (auto split: sum.splits)
      qed
    qed
  qed
qed

lemma getCommits_total: "\<exists>commits s'. getCommits E this s = (Inr commits, s')"
  by (cases "getCommits_try E this s") (auto simp: getCommits_def split: sum.splits)


text \<open>
  Claim C1. When \<^verbatim>\<open>checkIsRepo\<close> answers \<^verbatim>\<open>true\<close>, \<^verbatim>\<open>log\<close> returns \<open>N\<close> entries and no
  library call of the run fails, \<^verbatim>\<open>getCommits\<close> returns exactly \<open>N\<close> records, in the
  order of the log: hash, author, date and message of each record are those of the
  corresponding log entry, and the calls made are \<^verbatim>\<open>checkIsRepo\<close>, \<^verbatim>\<open>log\<close>, and then
  one \<^verbatim>\<open>show\<close> per record, on that record's hash, whose answer is that record's diff.
  The lookups are those of the run, each in the world that the calls before it have left;
  nothing is asked of the library in any other world.
\<close>

theorem getCommits_one_record_per_log_entry:
  assumes "sg_checkIsRepo E (repoPath this) (world s) = (Inr True, w1)"
    and "sg_log E (repoPath this) w1 = (Inr entries, w2)"
    and "\<forall>ev\<in>set (events_since s (snd (getCommits E this s))). failure ev = None"
  shows "\<exists>commits s'. getCommits E this s = (Inr commits, s') \<and>
           length commits = length entries \<and>
           map hash commits = map le_hash entries \<and>
           map author commits = map le_author_name entries \<and>
           map date commits = map le_date entries \<and>
           map message commits = map le_message entries \<and>
           events_since s s' =
             [CheckIsRepo (repoPath this) (Inr True), Log (repoPath this) (Inr entries)]
             @ map (\<lambda>k. Show (repoPath this) [hash k] (Inr (diff k))) commits"
proof -
  let ?p = "repoPath this"
  let ?s2 = "\<lparr>world = w2, trace = trace s @ [CheckIsRepo ?p (Inr True), Log ?p (Inr entries)]\<rparr>"
  obtain r s' where run: "getCommits_loop E ?p entries [] ?s2 = (r, s')"
    by (cases "getCommits_loop E ?p entries [] ?s2")
  have t: "getCommits_try E this s = (r, s')"
    using assms(1,2) run by (simp add: getCommits_try_def checkIsRepo_def git_log_def)
  from getCommits_loop_result [OF run]
  have "\<exists>ds. length ds = length entries \<and> r = Inr (map2 mkCommit entries ds) \<and>
          trace s' = trace ?s2 @ map2 (\<lambda>c d. Show ?p [le_hash c] (Inr d)) entries ds"
  proof (elim disjE exE conjE)
    fix e evs and c :: log_entry
    assume f: "r = Inl e" "trace s' = trace ?s2 @ evs @ [Show ?p [le_hash c] (Inl e)]"
    with t have "Show ?p [le_hash c] (Inl e) \<in> set (events_since s (snd (getCommits E this s)))"
      by (simp add: getCommits_def events_since_def)
    with assms(3) have "failure (Show ?p [le_hash c] (Inl e)) = None"
      by blast
    then show ?thesis by simp
  qed auto
  then obtain ds where ds: "length ds = length entries" "r = Inr (map2 mkCommit entries ds)"
    "trace s' = trace ?s2 @ map2 (\<lambda>c d. Show ?p [le_hash c] (Inr d)) entries ds"
    by blast
  have g: "getCommits E this s = (Inr (map2 mkCommit entries ds), s')"
    using t ds(2) by (simp add: getCommits_def)
  have zs: "map2 (\<lambda>c d. Show ?p [le_hash c] (Inr d)) entries ds
              = map (\<lambda>k. Show ?p [hash k] (Inr (diff k))) (map2 mkCommit entries ds)"
    by (simp add: mkCommit_def case_prod_unfold)
  have fields: "map hash (map2 mkCommit entries ds) = map le_hash entries"
    "map author (map2 mkCommit entries ds) = map le_author_name entries"
    "map date (map2 mkCommit entries ds) = map le_date entries"
    "map message (map2 mkCommit entries ds) = map le_message entries"
    using ds(1)
    by (simp_all add: mkCommit_def case_prod_unfold comp_def map_fst_zip_fun)
  have ev: "events_since s s' = [CheckIsRepo ?p (Inr True), Log ?p (Inr entries)]
              @ map (\<lambda>k. Show ?p [hash k] (Inr (diff k))) (map2 mkCommit entries ds)"
    using ds(3) zs by (simp add: events_since_def)
  have len: "length (map2 mkCommit entries ds) = length entries"
    using ds(1) by simp
  from g len fields ev show ?thesis
    by blast
qed

text \<open>
  On a library whose lookups depend on the world (they fail once more than ten calls have
  been made), the two lookups of the run succeed and \<^verbatim>\<open>getCommits\<close> returns the two
  records.
\<close>

theorem getCommits_one_record_per_log_entry_witness:
  "\<exists>commits s'.
     getCommits fixture_stateful fixture_logger fixture_start = (Inr commits, s') \<and>
     length commits = 2 \<and>
     map hash commits = [''b2'', ''a1''] \<and>
     map author commits = [''Bob'', ''Ann''] \<and>
     map date commits = [''2024-02-02'', ''2024-01-01''] \<and>
     map message commits = [''second'', ''first''] \<and>
     events_since fixture_start s' =
       [CheckIsRepo ''/src'' (Inr True), Log ''/src'' (Inr fixture_entries)]
       @ map (\<lambda>k. Show ''/src'' [hash k] (Inr (diff k))) commits"
proof -
  have h1: "sg_checkIsRepo fixture_stateful (repoPath fixture_logger) (world fixture_start)
              = (Inr True, Suc 0)"
    by (simp add: fixture_stateful_def fixture_start_def)
  have h2: "sg_log fixture_stateful (repoPath fixture_logger) (Suc 0)
              = (Inr fixture_entries, Suc (Suc 0))"
    by (simp add: fixture_stateful_def)
  have h3: "\<forall>ev\<in>set (events_since fixture_start
                       (snd (getCommits fixture_stateful fixture_logger fixture_start))).
              failure ev = None"
    by (simp add: getCommits_def getCommits_try_def call_defs fixture_stateful_def
        fixture_defs events_since_def)
  from getCommits_one_record_per_log_entry [OF h1 h2 h3]
  show ?thesis
    by (simp add: fixture_logger_def fixture_entries_def numeral_2_eq_2)
qed

text \<open>
  Claim C5. \<^verbatim>\<open>getCommits\<close> never rejects: for every behaviour of the library and every
  starting state it resolves to a list. If \<^verbatim>\<open>checkIsRepo\<close> answered \<^verbatim>\<open>false\<close>, the list
  is empty and the line \<^verbatim>\<open>Not a git repository: <repoPath>\<close> was logged. If any library call
  of the run (\<^verbatim>\<open>checkIsRepo\<close>, \<^verbatim>\<open>log\<close> or one of the \<^verbatim>\<open>show\<close> lookups) failed with an
  error, the list is empty, whatever records had been collected before, and the error was
  written to the error console under \<^verbatim>\<open>Error reading git history:\<close>.
\<close>

theorem getCommits_never_rejects:
  "(\<exists>commits. fst (getCommits E this s) = Inr commits) \<and>
   (\<forall>ev\<in>set (events_since s (snd (getCommits E this s))).
      (ev = CheckIsRepo (repoPath this) (Inr False) \<longrightarrow>
         fst (getCommits E this s) = Inr [] \<and>
         ConsoleLog (''Not a git repository: '' @ repoPath this)
           \<in> set (events_since s (snd (getCommits E this s)))) \<and>
      (\<forall>e. failure ev = Some e \<longrightarrow>
         fst (getCommits E this s) = Inr [] \<and>
         ConsoleError ''Error reading git history:'' e
           \<in> set (events_since s (snd (getCommits E this s)))))"
proof -
  obtain r s1 where t: "getCommits_try E this s = (r, s1)"
    by (cases "getCommits_try E this s")
  from getCommits_try_events[OF t] obtain evs where evs: "trace s1 = trace s @ evs"
    "CheckIsRepo (repoPath this) (Inr False) \<in> set evs \<longrightarrow>
       r = Inr [] \<and> ConsoleLog (''Not a git repository: '' @ repoPath this) \<in> set evs"
    "case r of Inr commits \<Rightarrow> \<forall>ev\<in>set evs. failure ev = None
             | Inl e \<Rightarrow> \<forall>ev\<in>set evs. \<forall>e'. failure ev = Some e' \<longrightarrow> e' = e"
    by blast
  show ?thesis
  proof (cases r)
    case (Inl e)
    with t have g: "getCommits E this s = (Inr [], console_error ''Error reading git history:'' e s1)"
      by (simp add: getCommits_def)
    have "events_since s (snd (getCommits E this s)) = evs @ [ConsoleError ''Error reading git history:'' e]"
      using g evs(1) by (simp add: events_since_def)
    then show ?thesis using g evs(2,3) Inl by auto
  next
    case (Inr commits)
    with t have g: "getCommits E this s = (Inr commits, s1)"
      by (simp add: getCommits_def)
    have "events_since s (snd (getCommits E this s)) = evs"
      using g evs(1) by (simp add: events_since_def)
    then show ?thesis using g evs(2,3) Inr by auto
  qed
qed

text \<open>
  On the fixture whose lookup of \<^verbatim>\<open>a1\<close> fails, the record of \<^verbatim>\<open>b2\<close> is lost and the
  error is logged; on the fixture that is no repository the condition is logged.
\<close>

theorem getCommits_never_rejects_witness:
  "fst (getCommits (fixture_git (\<lambda>git. Inr True) (Inr fixture_entries) fixture_show_failing
          (\<lambda>git args. Inr [])) fixture_logger fixture_start) = Inr [] \<and>
   ConsoleError ''Error reading git history:'' (GitError ''bad object a1'')
     \<in> set (events_since fixture_start
         (snd (getCommits (fixture_git (\<lambda>git. Inr True) (Inr fixture_entries) fixture_show_failing
                (\<lambda>git args. Inr [])) fixture_logger fixture_start))) \<and>
   fst (getCommits (fixture_git (\<lambda>git. Inr False) (Inr fixture_entries) fixture_show
          (\<lambda>git args. Inr [])) fixture_logger fixture_start) = Inr [] \<and>
   ConsoleLog ''Not a git repository: /src''
     \<in> set (events_since fixture_start
         (snd (getCommits (fixture_git (\<lambda>git. Inr False) (Inr fixture_entries) fixture_show
                (\<lambda>git args. Inr [])) fixture_logger fixture_start)))"
proof -
  let ?E1 = "fixture_git (\<lambda>git. Inr True) (Inr fixture_entries) fixture_show_failing
               (\<lambda>git args. Inr [])"
  let ?E2 = "fixture_git (\<lambda>git. Inr False) (Inr fixture_entries) fixture_show
               (\<lambda>git args. Inr [])"
  have m1: "Show ''/src'' [''a1''] (Inl (GitError ''bad object a1''))
              \<in> set (events_since fixture_start (snd (getCommits ?E1 fixture_logger fixture_start)))"
    by (simp add: getCommits_def getCommits_try_def call_defs fixture_defs events_since_def)
  have m2: "CheckIsRepo (repoPath fixture_logger) (Inr False)
              \<in> set (events_since fixture_start (snd (getCommits ?E2 fixture_logger fixture_start)))"
    by (simp add: getCommits_def getCommits_try_def call_defs fixture_defs events_since_def)
  have f: "failure (Show ''/src'' [''a1''] (Inl (GitError ''bad object a1'')))
             = Some (GitError ''bad object a1'')"
    by simp
  from getCommits_never_rejects [of ?E1 fixture_logger fixture_start] m1 f
  have a: "fst (getCommits ?E1 fixture_logger fixture_start) = Inr [] \<and>
           ConsoleError ''Error reading git history:'' (GitError ''bad object a1'')
             \<in> set (events_since fixture_start (snd (getCommits ?E1 fixture_logger fixture_start)))"
    by blast
  from getCommits_never_rejects [of ?E2 fixture_logger fixture_start] m2
  have b: "fst (getCommits ?E2 fixture_logger fixture_start) = Inr [] \<and>
           ConsoleLog (''Not a git repository: '' @ repoPath fixture_logger)
             \<in> set (events_since fixture_start (snd (getCommits ?E2 fixture_logger fixture_start)))"
    by blast
  from a b show ?thesis
    by (simp add: fixture_logger_def)
qed

section \<open>Properties of printCommitHistory\<close>

lemma printCommitHistory_loop_world [simp]:
  "world (printCommitHistory_loop commits s) = world s"
  by (induction commits arbitrary: s) simp_all

lemma printCommitHistory_loop_trace:
  "trace (printCommitHistory_loop commits s)
     = trace s @ map ConsoleLog (concat (map commit_template commits))"
  by (induction commits arbitrary: s) (simp_all add: commit_template_def separator_def)

text \<open>
  Claim C9. \<^verbatim>\<open>printCommitHistory\<close> resolves, and after \<^verbatim>\<open>getCommits\<close> has returned it
  writes to standard output only: the header, and then either the single line
  \<^verbatim>\<open>No commits found or not a git repository.\<close> when the list is empty, or for each commit in
  order the eight lines of the template (separator, hash, author, date, message, the
  \<^verbatim>\<open>Diff:\<close> label between two blank lines, the diff, separator followed by a blank line).
\<close>

theorem printCommitHistory_template:
  "\<exists>commits s1. getCommits E this s = (Inr commits, s1) \<and>
     fst (printCommitHistory E this s) = Inr () \<and>
     world (snd (printCommitHistory E this s)) = world s1 \<and>
     (commits = [] \<longrightarrow>
        events_since s1 (snd (printCommitHistory E this s))
          = [ConsoleLog (history_header this),
             ConsoleLog ''No commits found or not a git repository.'']) \<and>
     (commits \<noteq> [] \<longrightarrow>
        events_since s1 (snd (printCommitHistory E this s))
          = ConsoleLog (history_header this)
            # map ConsoleLog (concat (map commit_template commits)))"
proof -
  from getCommits_total obtain commits s1 where g: "getCommits E this s = (Inr commits, s1)"
    by blast
  show ?thesis
  proof (cases "commits = []")
    case True
    with g show ?thesis
      by (simp add: printCommitHistory_def events_since_def history_header_def)
  next
    case False
    with g show ?thesis
      by (simp add: printCommitHistory_def events_since_def history_header_def
          printCommitHistory_loop_trace Let_def)
  qed
qed

text \<open>The output on the fixture that is no repository, and on the fixture with two commits.\<close>

theorem printCommitHistory_template_witness:
  "events_since
     (snd (getCommits (fixture_git (\<lambda>git. Inr False) (Inr fixture_entries) fixture_show fixture_run)
             fixture_logger fixture_start))
     (snd (printCommitHistory
             (fixture_git (\<lambda>git. Inr False) (Inr fixture_entries) fixture_show fixture_run)
             fixture_logger fixture_start))
     = [ConsoleLog (''Git History for /src as of now:'' @ NL),
        ConsoleLog ''No commits found or not a git repository.''] \<and>
   events_since
     (snd (getCommits (fixture_git (\<lambda>git. Inr True) (Inr fixture_entries) fixture_show fixture_run)
             fixture_logger fixture_start))
     (snd (printCommitHistory
             (fixture_git (\<lambda>git. Inr True) (Inr fixture_entries) fixture_show fixture_run)
             fixture_logger fixture_start))
     = map ConsoleLog
        [''Git History for /src as of now:'' @ NL,
         ''----------------------------------------'',
         ''Commit: b2'', ''Author: Bob'', ''Date: 2024-02-02'', ''Message: second'',
         NL @ ''Diff:'' @ NL, ''diff --git b2'',
         ''----------------------------------------'' @ NL,
         ''----------------------------------------'',
         ''Commit: a1'', ''Author: Ann'', ''Date: 2024-01-01'', ''Message: first'',
         NL @ ''Diff:'' @ NL, ''diff --git a1'',
         ''----------------------------------------'' @ NL]"
proof -
  let ?E1 = "fixture_git (\<lambda>git. Inr False) (Inr fixture_entries) fixture_show fixture_run"
  let ?E0 = "fixture_git (\<lambda>git. Inr True) (Inr fixture_entries) fixture_show fixture_run"
  have c1: "fst (getCommits ?E1 fixture_logger fixture_start) = Inr []"
    by (simp add: getCommits_defs call_defs fixture_defs)
  have c0: "fst (getCommits ?E0 fixture_logger fixture_start)
              = Inr [\<lparr>hash = ''b2'', author = ''Bob'', date = ''2024-02-02'', message = ''second'',
                      diff = ''diff --git b2''\<rparr>,
                     \<lparr>hash = ''a1'', author = ''Ann'', date = ''2024-01-01'', message = ''first'',
                      diff = ''diff --git a1''\<rparr>]"
    by (simp add: getCommits_defs call_defs fixture_defs)
  from printCommitHistory_template [of ?E1 fixture_logger fixture_start] c1
  have a: "events_since (snd (getCommits ?E1 fixture_logger fixture_start))
             (snd (printCommitHistory ?E1 fixture_logger fixture_start))
           = [ConsoleLog (history_header fixture_logger),
              ConsoleLog ''No commits found or not a git repository.'']"
    by auto
  from printCommitHistory_template [of ?E0 fixture_logger fixture_start] c0
  have b: "events_since (snd (getCommits ?E0 fixture_logger fixture_start))
             (snd (printCommitHistory ?E0 fixture_logger fixture_start))
           = ConsoleLog (history_header fixture_logger)
             # map ConsoleLog (concat (map commit_template
                 [\<lparr>hash = ''b2'', author = ''Bob'', date = ''2024-02-02'', message = ''second'',
                      diff = ''diff --git b2''\<rparr>,
                     \<lparr>hash = ''a1'', author = ''Ann'', date = ''2024-01-01'', message = ''first'',
                      diff = ''diff --git a1''\<rparr>]))"
    by auto
  from a b show ?thesis
    by (simp add: history_header_def commit_template_def separator_def fixture_logger_def)
qed

section \<open>The early returns of applyToRepo\<close>




section \<open>One iteration of applyToRepo\<close>

lemma slash_in_patchPath: "CHR ''/'' \<in> set (patchPath this commit)"
  by (simp add: patchPath_def)

lemma patchPath_not_author_flag: "patchPath this commit \<noteq> ''--author''"
proof
  assume "patchPath this commit = ''--author''"
  with slash_in_patchPath [of this commit] show False
    by simp
qed

lemma amArgs_explicit:
  "amArgs this options commit =
     [''--committer-date-is-author-date'', ''--ignore-space-change'', ''--ignore-whitespace'',
      ''--3way'']
     @ (if truthy (newAuthor options) \<and> truthy (newEmail options)
        then [''--author'', interpolate (newAuthor options) @ '' <''
                            @ interpolate (newEmail options) @ ''>'']
        else [])
     @ [repoPath this @ ''/temp_'' @ hash commit @ ''.patch'']"
  by (simp add: amArgs_def patchPath_def Let_def)

lemma author_flag_in_amArgs:
  "''--author'' \<in> set (amArgs this options commit)
     \<longleftrightarrow> truthy (newAuthor options) \<and> truthy (newEmail options)"
  using patchPath_not_author_flag [of this commit]
  by (auto simp: amArgs_def Let_def)

text \<open>
  The four ways through the \<^verbatim>\<open>try\<close> block of an iteration: step 1 fails, step 3
  fails, step 4 fails, or all succeed and the success line is logged.
\<close>

lemma applyCommit_try_events:
  assumes "applyCommit_try E this tg options commit s = (r, s')"
  shows "(\<exists>e. r = Inl e \<and> trace s' = trace s
              @ [Raw (repoPath this) (formatPatchArgs this commit) (Inl e)])
       \<or> (\<exists>out e. r = Inl e \<and> trace s' = trace s
              @ [Raw (repoPath this) (formatPatchArgs this commit) (Inr out),
                 ConsoleLog (applying_line commit),
                 Raw tg (amArgs this options commit) (Inl e)])
       \<or> (\<exists>out r3 e. r = Inl e \<and> trace s' = trace s
              @ [Raw (repoPath this) (formatPatchArgs this commit) (Inr out),
                 ConsoleLog (applying_line commit),
                 Raw tg (amArgs this options commit) (Inr r3),
                 Raw tg [''clean'', ''-f'', patchPath this commit] (Inl e)])
       \<or> (\<exists>out r3 r4. r = Inr () \<and> trace s' = trace s
              @ [Raw (repoPath this) (formatPatchArgs this commit) (Inr out),
                 ConsoleLog (applying_line commit),
                 Raw tg (amArgs this options commit) (Inr r3),
                 Raw tg [''clean'', ''-f'', patchPath this commit] (Inr r4),
                 ConsoleLog (successLine options commit)])"
proof -
  obtain r1 w1 where c1: "sg_raw E (repoPath this) (formatPatchArgs this commit) (world s) = (r1, w1)"
    by (cases "sg_raw E (repoPath this) (formatPatchArgs this commit) (world s)")
  obtain r3 w3 where c3: "sg_raw E tg (amArgs this options commit) w1 = (r3, w3)"
    by (cases "sg_raw E tg (amArgs this options commit) w1")
  obtain r4 w4 where c4: "sg_raw E tg [''clean'', ''-f'', patchPath this commit] w3 = (r4, w4)"
    by (cases "sg_raw E tg [''clean'', ''-f'', patchPath this commit] w3")
  show ?thesis
    using assms c1 c3 c4
    by (cases r1; cases r3; cases r4)
       (auto simp: applyCommit_try_def raw_def applying_line_def Let_def)
qed

lemma applyCommit_ok:
  "applyCommit_try E this tg options commit s = (Inr u, s1)
     \<Longrightarrow> applyCommit E this tg options commit s = (Inr (), s1)"
  by (simp add: applyCommit_def)

text \<open>
  The \<^verbatim>\<open>catch\<close> block: the failure is logged with the hash and the date of the commit,
  \<^verbatim>\<open>am --abort\<close> is issued on the target, and the iteration resolves exactly when that
  call does; when it rejects, so does the iteration.
\<close>

lemma applyCommit_caught:
  assumes "applyCommit_try E this tg options commit s = (Inl e, s1)"
  shows "\<exists>x w. sg_raw E tg [''am'', ''--abort''] (world s1) = (x, w) \<and>
           applyCommit E this tg options commit s
             = ((case x of Inl e' \<Rightarrow> Inl e' | Inr out \<Rightarrow> Inr ()),
                \<lparr>world = w, trace = trace s1 @ [ConsoleError (failed_line commit) e,
                                               Raw tg [''am'', ''--abort''] x]\<rparr>)"
proof -
  obtain x w where c: "sg_raw E tg [''am'', ''--abort''] (world s1) = (x, w)"
    by (cases "sg_raw E tg [''am'', ''--abort''] (world s1)")
  with assms show ?thesis
    by (cases x) (simp_all add: applyCommit_def raw_def failed_line_def Let_def)
qed

lemma applyCommit_reaches_am:
  assumes "sg_raw E (repoPath this) (formatPatchArgs this commit) (world s) = (Inr out, w)"
  shows "\<exists>r rest. trace (snd (applyCommit E this tg options commit s))
           = trace s @ Raw (repoPath this) (formatPatchArgs this commit) (Inr out)
               # ConsoleLog (applying_line commit)
               # Raw tg (amArgs this options commit) r # rest"
proof -
  obtain r1 s1 where t: "applyCommit_try E this tg options commit s = (r1, s1)"
    by (cases "applyCommit_try E this tg options commit s")
  have first: "\<And>x evs. trace s1 = trace s @ Raw (repoPath this) (formatPatchArgs this commit) x # evs
                 \<Longrightarrow> x = Inr out"
    using t assms
    by (auto simp: applyCommit_try_def raw_def Let_def split: prod.splits sum.splits)
  from applyCommit_try_events [OF t] first
  have "\<exists>r rest. trace s1 = trace s @ Raw (repoPath this) (formatPatchArgs this commit) (Inr out)
               # ConsoleLog (applying_line commit)
               # Raw tg (amArgs this options commit) r # rest"
    by (elim disjE exE conjE) (simp, fastforce+)
  then obtain r rest where tr: "trace s1 = trace s
      @ Raw (repoPath this) (formatPatchArgs this commit) (Inr out)
        # ConsoleLog (applying_line commit) # Raw tg (amArgs this options commit) r # rest"
    by blast
  show ?thesis
  proof (cases r1)
    case (Inr u)
    with t tr show ?thesis
      by (simp add: applyCommit_ok)
  next
    case (Inl e)
    with t applyCommit_caught [of E this tg options commit s e s1] tr show ?thesis
      by auto
  qed
qed

lemma buildApplyOptions_author:
  "truthy (newAuthor (buildApplyOptions cli)) \<and> truthy (newEmail (buildApplyOptions cli))
     \<longleftrightarrow> truthy (cli_author cli) \<and> truthy (cli_email cli)"
  by (auto simp: buildApplyOptions_def Let_def truthy_def)

text \<open>
  Claim C6. In every iteration of the loop of \<^verbatim>\<open>applyToRepo\<close> in which the patch generation
  succeeds, the next library call is the patch application on the target, and its
  arguments are the four fixed flags \<^verbatim>\<open>--committer-date-is-author-date\<close>,
  \<^verbatim>\<open>--ignore-space-change\<close>, \<^verbatim>\<open>--ignore-whitespace\<close>, \<^verbatim>\<open>--3way\<close>, then \<^verbatim>\<open>--author\<close> with
  \<^verbatim>\<open>name <email>\<close> exactly when both \<^verbatim>\<open>newAuthor\<close> and \<^verbatim>\<open>newEmail\<close> are set and not
  empty, then the patch path. The entry point sets both fields exactly when both
  \<^verbatim>\<open>--author\<close> and \<^verbatim>\<open>--email\<close> were given.
\<close>

theorem am_invocation_flags:
  "(\<forall>out w. sg_raw E (repoPath this) (formatPatchArgs this commit) (world s) = (Inr out, w) \<longrightarrow>
      (\<exists>r rest. events_since s (snd (applyCommit E this tg options commit s))
         = Raw (repoPath this) (formatPatchArgs this commit) (Inr out)
           # ConsoleLog (applying_line commit)
           # Raw tg (amArgs this options commit) r # rest)) \<and>
   amArgs this options commit =
     [''--committer-date-is-author-date'', ''--ignore-space-change'', ''--ignore-whitespace'',
      ''--3way'']
     @ (if truthy (newAuthor options) \<and> truthy (newEmail options)
        then [''--author'', interpolate (newAuthor options) @ '' <''
                            @ interpolate (newEmail options) @ ''>'']
        else [])
     @ [repoPath this @ ''/temp_'' @ hash commit @ ''.patch''] \<and>
   (''--author'' \<in> set (amArgs this options commit)
      \<longleftrightarrow> truthy (newAuthor options) \<and> truthy (newEmail options)) \<and>
   (truthy (newAuthor (buildApplyOptions cli)) \<and> truthy (newEmail (buildApplyOptions cli))
      \<longleftrightarrow> truthy (cli_author cli) \<and> truthy (cli_email cli))"
proof -
  have "\<exists>r rest. events_since s (snd (applyCommit E this tg options commit s))
         = Raw (repoPath this) (formatPatchArgs this commit) (Inr out)
           # ConsoleLog (applying_line commit)
           # Raw tg (amArgs this options commit) r # rest"
    if "sg_raw E (repoPath this) (formatPatchArgs this commit) (world s) = (Inr out, w)" for out w
    using applyCommit_reaches_am [OF that, of tg options]
    by (auto simp: events_since_def)
  with amArgs_explicit [of this options commit] author_flag_in_amArgs [of this options commit]
    buildApplyOptions_author [of cli]
  show ?thesis
    by blast
qed

text \<open>On the fixture, with an author and an email given.\<close>

theorem am_invocation_flags_witness:
  "\<exists>r rest.
     events_since fixture_start
       (snd (applyCommit fixture_ok fixture_logger ''/dst''
               (fixture_options\<lparr>newAuthor := Some ''Carol'',
                                 newEmail := Some ''carol@example.org''\<rparr>)
               fixture_commit fixture_start))
     = Raw ''/src'' [''format-patch'', ''--stdout'', ''-1'', ''--full-index'', ''--binary'',
                     ''--date-order'', ''b2'', ''-o'', ''/src''] (Inr ''From b2 ...'')
       # ConsoleLog ''Applying commit: second (2024-02-02)''
       # Raw ''/dst'' [''--committer-date-is-author-date'', ''--ignore-space-change'',
                       ''--ignore-whitespace'', ''--3way'', ''--author'',
                       ''Carol <carol@example.org>'', ''/src/temp_b2.patch''] r
       # rest"
proof -
  let ?options = "fixture_options\<lparr>newAuthor := Some ''Carol'',
                                   newEmail := Some ''carol@example.org''\<rparr>"
  have h: "sg_raw fixture_ok (repoPath fixture_logger) (formatPatchArgs fixture_logger fixture_commit)
             (world fixture_start) = (Inr ''From b2 ...'', Suc 0)"
    by (simp add: fixture_apply_defs formatPatchArgs_def)
  from am_invocation_flags [of fixture_ok fixture_logger fixture_commit fixture_start
      "''/dst''" ?options] h
  have "\<exists>r rest. events_since fixture_start
           (snd (applyCommit fixture_ok fixture_logger ''/dst'' ?options fixture_commit fixture_start))
         = Raw (repoPath fixture_logger) (formatPatchArgs fixture_logger fixture_commit)
             (Inr ''From b2 ...'')
           # ConsoleLog (applying_line fixture_commit)
           # Raw ''/dst'' (amArgs fixture_logger ?options fixture_commit) r # rest"
    by blast
  then show ?thesis
    by (simp add: formatPatchArgs_def amArgs_def patchPath_def applying_line_def truthy_def
        interpolate_def fixture_logger_def fixture_commit_def fixture_options_def Let_def)
qed

lemma successLine_not_applying_line: "successLine options commit \<noteq> applying_line commit'"
proof
  assume "successLine options commit = applying_line commit'"
  then have "hd (successLine options commit) = hd (applying_line commit')"
    by simp
  then show False
    by (simp add: successLine_def applying_line_def check_mark_def Let_def)
qed

text \<open>
  Whenever an iteration logs the success line of its commit, its four library calls all
  resolved, and the last of them, immediately before the line, is \<^verbatim>\<open>clean -f\<close> with the
  patch path on the handle of the target.
\<close>

lemma applyCommit_success_line:
  assumes "ConsoleLog (successLine options commit)
             \<in> set (events_since s (snd (applyCommit E this tg options commit s)))"
  shows "fst (applyCommit E this tg options commit s) = Inr () \<and>
         (\<exists>out r3 r4. events_since s (snd (applyCommit E this tg options commit s))
            = [Raw (repoPath this) (formatPatchArgs this commit) (Inr out),
               ConsoleLog (applying_line commit),
               Raw tg (amArgs this options commit) (Inr r3),
               Raw tg [''clean'', ''-f'', patchPath this commit] (Inr r4),
               ConsoleLog (successLine options commit)])"
proof -
  obtain r1 s1 where t: "applyCommit_try E this tg options commit s = (r1, s1)"
    by (cases "applyCommit_try E this tg options commit s")
  show ?thesis
  proof (cases r1)
    case (Inr u)
    with t have a: "applyCommit E this tg options commit s = (Inr (), s1)"
      by (simp add: applyCommit_ok)
    from applyCommit_try_events [OF t] Inr a show ?thesis
      by (auto simp: events_since_def)
  next
    case (Inl e)
    from applyCommit_caught [of E this tg options commit s e s1] t Inl
    obtain x w where c: "applyCommit E this tg options commit s
             = ((case x of Inl e' \<Rightarrow> Inl e' | Inr out \<Rightarrow> Inr ()),
                \<lparr>world = w, trace = trace s1 @ [ConsoleError (failed_line commit) e,
                                               Raw tg [''am'', ''--abort''] x]\<rparr>)"
      by blast
    from applyCommit_try_events [OF t] Inl c assms
      successLine_not_applying_line [of options commit commit]
    show ?thesis
      by (auto simp: events_since_def)
  qed
qed

text \<open>
  Claim C10. The success line is computed from the two name fields only: changing
  \<^verbatim>\<open>newEmail\<close> or \<^verbatim>\<open>newCommitterEmail\<close> does not change it, and the arguments of the patch
  application never depend on the committer fields. With \<^verbatim>\<open>newAuthor\<close> set and
  \<^verbatim>\<open>newEmail\<close> absent or empty the line reads \<^verbatim>\<open>new author: <name>\<close> although the arguments
  carry no \<^verbatim>\<open>--author\<close>; with \<^verbatim>\<open>newCommitter\<close> set it reads \<^verbatim>\<open>new committer: <name>\<close>
  whatever \<^verbatim>\<open>newCommitterEmail\<close> is. Both the call and the line are those of the run: an
  iteration whose \<^verbatim>\<open>try\<close> block completes made the call with these arguments and logged
  this line.
\<close>

theorem success_line_labels_follow_names_only:
  "successLine (options\<lparr>newEmail := e, newCommitterEmail := ce\<rparr>) commit
     = successLine options commit \<and>
   amArgs this (options\<lparr>newCommitter := c, newCommitterEmail := ce\<rparr>) commit
     = amArgs this options commit \<and>
   (truthy (newAuthor options) \<and> \<not> truthy (newEmail options) \<longrightarrow>
      ''--author'' \<notin> set (amArgs this options commit) \<and>
      (\<exists>rest. successLine options commit
         = check_mark @ '' Successfully applied with new author: ''
           @ interpolate (newAuthor options) @ '', '' @ rest)) \<and>
   (truthy (newCommitter options) \<longrightarrow>
      (\<exists>info. successLine options commit
         = check_mark @ '' Successfully applied with '' @ info @ '', new committer: ''
           @ interpolate (newCommitter options) @ '' and original date: '' @ date commit @ NL)) \<and>
   (\<forall>s'. applyCommit_try E this tg options commit s = (Inr (), s') \<longrightarrow>
      (\<exists>out r3 r4. events_since s s'
         = [Raw (repoPath this) (formatPatchArgs this commit) (Inr out),
            ConsoleLog (applying_line commit),
            Raw tg (amArgs this options commit) (Inr r3),
            Raw tg [''clean'', ''-f'', patchPath this commit] (Inr r4),
            ConsoleLog (successLine options commit)]))"
proof -
  have 1: "successLine (options\<lparr>newEmail := e, newCommitterEmail := ce\<rparr>) commit
             = successLine options commit"
    by (simp add: successLine_def)
  have 2: "amArgs this (options\<lparr>newCommitter := c, newCommitterEmail := ce\<rparr>) commit
             = amArgs this options commit"
    by (simp add: amArgs_def Let_def)
  have 3: "''--author'' \<notin> set (amArgs this options commit) \<and>
      (\<exists>rest. successLine options commit
         = check_mark @ '' Successfully applied with new author: ''
           @ interpolate (newAuthor options) @ '', '' @ rest)"
    if "truthy (newAuthor options) \<and> \<not> truthy (newEmail options)"
    using that author_flag_in_amArgs [of this options commit]
    by (simp add: successLine_def Let_def)
  have 4: "\<exists>info. successLine options commit
         = check_mark @ '' Successfully applied with '' @ info @ '', new committer: ''
           @ interpolate (newCommitter options) @ '' and original date: '' @ date commit @ NL"
    if "truthy (newCommitter options)"
    using that by (simp add: successLine_def Let_def)
  have 5: "\<exists>out r3 r4. events_since s s'
         = [Raw (repoPath this) (formatPatchArgs this commit) (Inr out),
            ConsoleLog (applying_line commit),
            Raw tg (amArgs this options commit) (Inr r3),
            Raw tg [''clean'', ''-f'', patchPath this commit] (Inr r4),
            ConsoleLog (successLine options commit)]"
    if "applyCommit_try E this tg options commit s = (Inr (), s')" for s'
    using applyCommit_try_events [OF that] by (auto simp: events_since_def)
  from 1 2 3 4 5 show ?thesis
    by blast
qed

text \<open>
  On the fixture, with the two names given and no email: the line names Mallory and Eve,
  the call carries neither.
\<close>

theorem success_line_labels_follow_names_only_witness:
  "''--author'' \<notin> set (amArgs fixture_logger
       (fixture_options\<lparr>newAuthor := Some ''Mallory'', newCommitter := Some ''Eve''\<rparr>)
       fixture_commit) \<and>
   (\<exists>out r3 r4.
      events_since fixture_start
        (snd (applyCommit_try fixture_ok fixture_logger ''/dst''
                (fixture_options\<lparr>newAuthor := Some ''Mallory'', newCommitter := Some ''Eve''\<rparr>)
                fixture_commit fixture_start))
      = [Raw ''/src'' [''format-patch'', ''--stdout'', ''-1'', ''--full-index'', ''--binary'',
                       ''--date-order'', ''b2'', ''-o'', ''/src''] (Inr out),
         ConsoleLog ''Applying commit: second (2024-02-02)'',
         Raw ''/dst'' [''--committer-date-is-author-date'', ''--ignore-space-change'',
                       ''--ignore-whitespace'', ''--3way'', ''/src/temp_b2.patch''] (Inr r3),
         Raw ''/dst'' [''clean'', ''-f'', ''/src/temp_b2.patch''] (Inr r4),
         ConsoleLog (check_mark @ '' Successfully applied with new author: Mallory, ''
                     @ ''new committer: Eve and original date: 2024-02-02'' @ NL)])"
proof -
  let ?options = "fixture_options\<lparr>newAuthor := Some ''Mallory'', newCommitter := Some ''Eve''\<rparr>"
  have h1: "truthy (newAuthor ?options) \<and> \<not> truthy (newEmail ?options)"
    by (simp add: truthy_def fixture_options_def)
  have h2: "applyCommit_try fixture_ok fixture_logger ''/dst'' ?options fixture_commit fixture_start
              = (Inr (), snd (applyCommit_try fixture_ok fixture_logger ''/dst'' ?options
                                fixture_commit fixture_start))"
    by (simp add: apply_defs raw_def fixture_apply_defs Let_def)
  from success_line_labels_follow_names_only [where options = ?options and commit = fixture_commit
      and this = fixture_logger and E = fixture_ok and tg = "''/dst''" and s = fixture_start] h1 h2
  have "''--author'' \<notin> set (amArgs fixture_logger ?options fixture_commit) \<and>
        (\<exists>out r3 r4. events_since fixture_start
           (snd (applyCommit_try fixture_ok fixture_logger ''/dst'' ?options fixture_commit
                   fixture_start))
         = [Raw (repoPath fixture_logger) (formatPatchArgs fixture_logger fixture_commit) (Inr out),
            ConsoleLog (applying_line fixture_commit),
            Raw ''/dst'' (amArgs fixture_logger ?options fixture_commit) (Inr r3),
            Raw ''/dst'' [''clean'', ''-f'', patchPath fixture_logger fixture_commit] (Inr r4),
            ConsoleLog (successLine ?options fixture_commit)])"
    by blast
  then show ?thesis
    by (simp add: formatPatchArgs_def amArgs_def patchPath_def applying_line_def successLine_def
        truthy_def interpolate_def fixture_logger_def fixture_commit_def fixture_options_def
        Let_def)
qed

lemma patchPath_not_in_formatPatchArgs:
  "patchPath this commit \<notin> set (formatPatchArgs this commit)"
proof -
  have len: "length (hash commit) < length (patchPath this commit)"
    "length (repoPath this) < length (patchPath this commit)"
    by (simp_all add: patchPath_def)
  have "patchPath this commit \<noteq> hash commit" "patchPath this commit \<noteq> repoPath this"
    using len by auto
  moreover have "patchPath this commit \<noteq> lit"
    if "CHR ''/'' \<notin> set lit" for lit
    using that slash_in_patchPath [of this commit] by auto
  ultimately show ?thesis
    by (simp add: formatPatchArgs_def)
qed

text \<open>
  Claim C3, evaluated where it fails. Step 1 asks for a patch of the one commit \<^verbatim>\<open>b2\<close>
  with \<^verbatim>\<open>--full-index\<close>, \<^verbatim>\<open>--binary\<close> and \<^verbatim>\<open>--date-order\<close>, on standard output and with
  the output directory \<^verbatim>\<open>/src\<close>; the text that comes back is dropped. The name
  \<^verbatim>\<open>/src/temp_b2.patch\<close>, which the patch application and the clean-up are then given, is
  for no commit and no repository path among the arguments of step 1, and the iteration
  does nothing else than these three calls and two console lines: nothing writes a file
  of that name.
\<close>

theorem patch_file_name_never_requested:
  "patchPath this commit \<notin> set (formatPatchArgs this commit) \<and>
   applyCommit fixture_ok fixture_logger ''/dst'' fixture_options fixture_commit fixture_start
     = (Inr (),
        \<lparr>world = 3,
         trace =
           [Raw ''/src'' [''format-patch'', ''--stdout'', ''-1'', ''--full-index'', ''--binary'',
                          ''--date-order'', ''b2'', ''-o'', ''/src''] (Inr ''From b2 ...''),
            ConsoleLog ''Applying commit: second (2024-02-02)'',
            Raw ''/dst'' [''--committer-date-is-author-date'', ''--ignore-space-change'',
                          ''--ignore-whitespace'', ''--3way'', ''/src/temp_b2.patch''] (Inr []),
            Raw ''/dst'' [''clean'', ''-f'', ''/src/temp_b2.patch''] (Inr []),
            ConsoleLog (check_mark @ '' Successfully applied with original author: Bob, ''
                        @ ''original committer and original date: 2024-02-02'' @ NL)]\<rparr>)"
proof -
  have "applyCommit fixture_ok fixture_logger ''/dst'' fixture_options fixture_commit fixture_start
     = (Inr (),
        \<lparr>world = 3,
         trace =
           [Raw ''/src'' [''format-patch'', ''--stdout'', ''-1'', ''--full-index'', ''--binary'',
                          ''--date-order'', ''b2'', ''-o'', ''/src''] (Inr ''From b2 ...''),
            ConsoleLog ''Applying commit: second (2024-02-02)'',
            Raw ''/dst'' [''--committer-date-is-author-date'', ''--ignore-space-change'',
                          ''--ignore-whitespace'', ''--3way'', ''/src/temp_b2.patch''] (Inr []),
            Raw ''/dst'' [''clean'', ''-f'', ''/src/temp_b2.patch''] (Inr []),
            ConsoleLog (check_mark @ '' Successfully applied with original author: Bob, ''
                        @ ''original committer and original date: 2024-02-02'' @ NL)]\<rparr>)"
    by (simp add: apply_defs raw_def fixture_apply_defs truthy_def emit_def console_log_def
        Let_def)
  with patchPath_not_in_formatPatchArgs [of this commit] show ?thesis
    by blast
qed



section \<open>The loop of applyToRepo\<close>

text \<open>
  The events of the loop are those of its iterations, one after the other, so what holds
  of an iteration from any state holds of every commit that \<^verbatim>\<open>applyToRepo\<close> processes;
  a loop that resolves has processed every commit.
\<close>

lemma applyCommit_extends:
  "\<exists>evs. trace (snd (applyCommit E this tg options commit s)) = trace s @ evs"
proof -
  obtain r1 s1 where t: "applyCommit_try E this tg options commit s = (r1, s1)"
    by (cases "applyCommit_try E this tg options commit s")
  from applyCommit_try_events [OF t] obtain evs where evs: "trace s1 = trace s @ evs"
    by auto
  show ?thesis
  proof (cases r1)
    case (Inr u)
    with t evs show ?thesis
      by (simp add: applyCommit_ok)
  next
    case (Inl e)
    with t applyCommit_caught [of E this tg options commit s e s1] evs show ?thesis
      by auto
  qed
qed

lemma applyToRepo_loop_trace:
  "trace (snd (applyToRepo_loop E this tg options commits s))
     = trace s @ concat (map (\<lambda>(commit, sc). events_since sc
                               (snd (applyCommit E this tg options commit sc)))
                          (iterations E this tg options commits s))"
proof (induction commits arbitrary: s)
  case Nil
  then show ?case by simp
next
  case (Cons commit rest)
  obtain r1 s1 where a: "applyCommit E this tg options commit s = (r1, s1)"
    by (cases "applyCommit E this tg options commit s")
  from applyCommit_extends [of E this tg options commit s] a
  obtain evs where evs: "trace s1 = trace s @ evs"
    by auto
  then have ev: "events_since s s1 = evs"
    by (simp add: events_since_def)
  show ?case
  proof (cases r1)
    case (Inl e)
    with a evs ev show ?thesis by simp
  next
    case (Inr u)
    with a evs ev Cons.IH [of s1] show ?thesis by simp
  qed
qed

lemma iterations_all_when_resolved:
  "fst (applyToRepo_loop E this tg options commits s) = Inr ()
     \<Longrightarrow> map fst (iterations E this tg options commits s) = commits"
proof (induction commits arbitrary: s)
  case Nil
  then show ?case by simp
next
  case (Cons commit rest)
  obtain r1 s1 where a: "applyCommit E this tg options commit s = (r1, s1)"
    by (cases "applyCommit E this tg options commit s")
  show ?case
  proof (cases r1)
    case (Inl e)
    with a Cons.prems show ?thesis by simp
  next
    case (Inr u)
    with a Cons.prems Cons.IH [of s1] show ?thesis by simp
  qed
qed

section \<open>The committer options of applyToRepo\<close>

lemma same_calls_refl: "same_calls s s"
  by (simp add: same_calls_def)

lemma same_calls_console:
  "same_calls s t \<Longrightarrow> same_calls (console_log l s) (console_log l' t)"
  "same_calls s t \<Longrightarrow> same_calls (console_error l e s) (console_error l e t)"
  by (simp_all add: same_calls_def)

lemma same_calls_raw:
  assumes "same_calls s t"
  shows "fst (raw E git args s) = fst (raw E git args t) \<and>
         same_calls (snd (raw E git args s)) (snd (raw E git args t))"
  using assms by (simp add: same_calls_def raw_def split: prod.splits)

lemma same_calls_rawE:
  assumes "same_calls s t"
  obtains r s1 t1 where "raw E git args s = (r, s1)" "raw E git args t = (r, t1)"
    "same_calls s1 t1"
  using same_calls_raw [OF assms, of E git args]
  by (cases "raw E git args s"; cases "raw E git args t") simp

lemma amArgs_ignores_committer:
  "amArgs this (options\<lparr>newCommitter := c, newCommitterEmail := ce\<rparr>) commit
     = amArgs this options commit"
  by (simp add: amArgs_def Let_def)

text \<open>
  The iteration, the loop and the whole of \<^verbatim>\<open>applyToRepo\<close> preserve the agreement of
  two states when only the committer options differ.
\<close>

lemma same_calls_applyCommit_try:
  assumes "same_calls s t"
  shows "fst (applyCommit_try E this tg (options\<lparr>newCommitter := c, newCommitterEmail := ce\<rparr>)
                commit s)
           = fst (applyCommit_try E this tg options commit t) \<and>
         same_calls
           (snd (applyCommit_try E this tg (options\<lparr>newCommitter := c, newCommitterEmail := ce\<rparr>)
                   commit s))
           (snd (applyCommit_try E this tg options commit t))"
proof -
  let ?o' = "options\<lparr>newCommitter := c, newCommitterEmail := ce\<rparr>"
  let ?line = "''Applying commit: '' @ message commit @ '' ('' @ date commit @ '')''"
  obtain r1 s1 t1 where 1: "raw E (repoPath this) (formatPatchArgs this commit) s = (r1, s1)"
    "raw E (repoPath this) (formatPatchArgs this commit) t = (r1, t1)" "same_calls s1 t1"
    using assms by (rule same_calls_rawE)
  show ?thesis
  proof (cases r1)
    case (Inl e)
    with 1 show ?thesis
      by (simp add: applyCommit_try_def)
  next
    case r1: (Inr out)
    have "same_calls (console_log ?line s1) (console_log ?line t1)"
      using 1(3) by (rule same_calls_console)
    then obtain r3 s3 t3 where 3:
      "raw E tg (amArgs this options commit) (console_log ?line s1) = (r3, s3)"
      "raw E tg (amArgs this options commit) (console_log ?line t1) = (r3, t3)"
      "same_calls s3 t3"
      by (rule same_calls_rawE)
    show ?thesis
    proof (cases r3)
      case (Inl e)
      with 1 r1 3 show ?thesis
        by (simp add: applyCommit_try_def amArgs_ignores_committer Let_def)
    next
      case r3: (Inr out3)
      obtain r4 s4 t4 where 4:
        "raw E tg [''clean'', ''-f'', patchPath this commit] s3 = (r4, s4)"
        "raw E tg [''clean'', ''-f'', patchPath this commit] t3 = (r4, t4)"
        "same_calls s4 t4"
        using 3(3) by (rule same_calls_rawE)
      show ?thesis
      proof (cases r4)
        case (Inl e)
        with 1 r1 3 r3 4 show ?thesis
          by (simp add: applyCommit_try_def amArgs_ignores_committer Let_def)
      next
        case (Inr out4)
        have "same_calls (console_log (successLine ?o' commit) s4)
                (console_log (successLine options commit) t4)"
          using 4(3) by (rule same_calls_console)
        with 1 r1 3 r3 4 Inr show ?thesis
          by (simp add: applyCommit_try_def amArgs_ignores_committer Let_def)
      qed
    qed
  qed
qed

lemma same_calls_applyCommit:
  assumes "same_calls s t"
  shows "fst (applyCommit E this tg (options\<lparr>newCommitter := c, newCommitterEmail := ce\<rparr>)
                commit s)
           = fst (applyCommit E this tg options commit t) \<and>
         same_calls
           (snd (applyCommit E this tg (options\<lparr>newCommitter := c, newCommitterEmail := ce\<rparr>)
                   commit s))
           (snd (applyCommit E this tg options commit t))"
proof -
  let ?o' = "options\<lparr>newCommitter := c, newCommitterEmail := ce\<rparr>"
  let ?line = "''Failed to apply commit '' @ hash commit @ '' from '' @ date commit @ '':''"
  obtain r1 s1 where a: "applyCommit_try E this tg ?o' commit s = (r1, s1)"
    by (cases "applyCommit_try E this tg ?o' commit s")
  obtain r1' t1 where b: "applyCommit_try E this tg options commit t = (r1', t1)"
    by (cases "applyCommit_try E this tg options commit t")
  from same_calls_applyCommit_try [OF assms, where E = E and this = this and tg = tg
      and options = options and c = c and ce = ce and commit = commit] a b
  have eq: "r1' = r1" and sc: "same_calls s1 t1"
    by simp_all
  show ?thesis
  proof (cases r1)
    case (Inr u)
    with a b eq sc show ?thesis
      by (simp add: applyCommit_def)
  next
    case (Inl e)
    have "same_calls (console_error ?line e s1) (console_error ?line e t1)"
      using sc by (rule same_calls_console)
    then obtain x s3 t3 where 3:
      "raw E tg [''am'', ''--abort''] (console_error ?line e s1) = (x, s3)"
      "raw E tg [''am'', ''--abort''] (console_error ?line e t1) = (x, t3)"
      "same_calls s3 t3"
      by (rule same_calls_rawE)
    with a b eq Inl show ?thesis
      by (cases x) (simp_all add: applyCommit_def Let_def)
  qed
qed

lemma same_calls_applyToRepo_loop:
  assumes "same_calls s t"
  shows "fst (applyToRepo_loop E this tg (options\<lparr>newCommitter := c, newCommitterEmail := ce\<rparr>)
                commits s)
           = fst (applyToRepo_loop E this tg options commits t) \<and>
         same_calls
           (snd (applyToRepo_loop E this tg (options\<lparr>newCommitter := c, newCommitterEmail := ce\<rparr>)
                   commits s))
           (snd (applyToRepo_loop E this tg options commits t))"
  using assms
proof (induction commits arbitrary: s t)
  case Nil
  then show ?case by simp
next
  case (Cons commit rest)
  let ?o' = "options\<lparr>newCommitter := c, newCommitterEmail := ce\<rparr>"
  obtain r1 s1 where a: "applyCommit E this tg ?o' commit s = (r1, s1)"
    by (cases "applyCommit E this tg ?o' commit s")
  obtain r1' t1 where b: "applyCommit E this tg options commit t = (r1', t1)"
    by (cases "applyCommit E this tg options commit t")
  from same_calls_applyCommit [OF Cons.prems, where E = E and this = this and tg = tg
      and options = options and c = c and ce = ce and commit = commit] a b
  have eq: "r1' = r1" and sc: "same_calls s1 t1"
    by simp_all
  show ?case
  proof (cases r1)
    case (Inl e)
    with a b eq sc show ?thesis by simp
  next
    case (Inr u)
    with a b eq Cons.IH [OF sc] show ?thesis by simp
  qed
qed

lemma applyToRepo_ignores_committer:
  "fst (applyToRepo E this tg (options\<lparr>newCommitter := c, newCommitterEmail := ce\<rparr>) s)
     = fst (applyToRepo E this tg options s) \<and>
   same_calls (snd (applyToRepo E this tg (options\<lparr>newCommitter := c, newCommitterEmail := ce\<rparr>) s))
     (snd (applyToRepo E this tg options s))"
proof -
  let ?o' = "options\<lparr>newCommitter := c, newCommitterEmail := ce\<rparr>"
  from getCommits_total obtain commits s1 where g: "getCommits E this s = (Inr commits, s1)"
    by blast
  show ?thesis
  proof (cases "commits = []")
    case True
    with g show ?thesis
      by (simp add: applyToRepo_def same_calls_refl)
  next
    case ne: False
    show ?thesis
    proof (cases "sg_simpleGit E tg (world s1)")
      case (Some e)
      with g ne show ?thesis
        by (simp add: applyToRepo_def simpleGit_def same_calls_refl)
    next
      case None
      obtain x s3 where ck: "checkIsRepo E tg (emit (SimpleGit tg None) s1) = (x, s3)"
        by (cases "checkIsRepo E tg (emit (SimpleGit tg None) s1)")
      show ?thesis
      proof (cases x)
        case (Inl e)
        with g ne None ck show ?thesis
          by (simp add: applyToRepo_def simpleGit_def same_calls_refl)
      next
        case (Inr isRepo)
        show ?thesis
        proof (cases isRepo)
          case False
          with g ne None ck Inr show ?thesis
            by (simp add: applyToRepo_def simpleGit_def same_calls_refl)
        next
          case True
          let ?s4 = "console_log (''Applying commits to '' @ tg @ ''...'' @ NL) s3"
          have sc: "same_calls ?s4 ?s4"
            by (rule same_calls_refl)
          from same_calls_applyToRepo_loop [OF sc, where E = E and this = this and tg = tg
      and options = options and c = c and ce = ce and commits = commits]
            g ne None ck Inr True
          show ?thesis
            by (simp add: applyToRepo_def simpleGit_def Let_def)
        qed
      qed
    qed
  qed
qed

text \<open>
  Claim C4. When \<^verbatim>\<open>newCommitter\<close> and \<^verbatim>\<open>newCommitterEmail\<close> are both set and not empty,
  the object \<^verbatim>\<open>env\<close> holds them under \<^verbatim>\<open>GIT_COMMITTER_NAME\<close> and \<^verbatim>\<open>GIT_COMMITTER_EMAIL\<close>.
  The object is never handed to a library call: whatever the two committer options are,
  \<^verbatim>\<open>applyToRepo\<close> gives the same result, leaves the world in the same state and makes the
  same library calls, with the same arguments and the same answers, in the same order.
\<close>

theorem committer_env_not_passed:
  "(\<forall>n m. newCommitter options = Some n \<and> n \<noteq> [] \<and>
          newCommitterEmail options = Some m \<and> m \<noteq> [] \<longrightarrow>
      committerEnv options = [''GIT_COMMITTER_NAME'' \<mapsto> n, ''GIT_COMMITTER_EMAIL'' \<mapsto> m]) \<and>
   fst (applyToRepo E this tg (options\<lparr>newCommitter := c, newCommitterEmail := ce\<rparr>) s)
     = fst (applyToRepo E this tg options s) \<and>
   world (snd (applyToRepo E this tg (options\<lparr>newCommitter := c, newCommitterEmail := ce\<rparr>) s))
     = world (snd (applyToRepo E this tg options s)) \<and>
   filter git_call
     (trace (snd (applyToRepo E this tg (options\<lparr>newCommitter := c, newCommitterEmail := ce\<rparr>) s)))
     = filter git_call (trace (snd (applyToRepo E this tg options s)))"
  using applyToRepo_ignores_committer [where E = E and this = this and tg = tg
      and options = options and c = c and ce = ce and s = s]
  by (simp add: same_calls_def committerEnv_def truthy_def interpolate_def)

text \<open>
  On the fixture: the object holds Eve's name and email, and the calls of the run are
  those of the run without them.
\<close>

theorem committer_env_not_passed_witness:
  "committerEnv (fixture_options\<lparr>newCommitter := Some ''Eve'',
                                  newCommitterEmail := Some ''eve@example.org''\<rparr>)
     = [''GIT_COMMITTER_NAME'' \<mapsto> ''Eve'', ''GIT_COMMITTER_EMAIL'' \<mapsto> ''eve@example.org''] \<and>
   filter git_call
     (trace (snd (applyToRepo fixture_ok fixture_logger ''/dst''
                    (fixture_options\<lparr>newCommitter := Some ''Eve'',
                                      newCommitterEmail := Some ''eve@example.org''\<rparr>)
                    fixture_start)))
     = filter git_call
         (trace (snd (applyToRepo fixture_ok fixture_logger ''/dst'' fixture_options fixture_start)))"
proof -
  let ?options = "fixture_options\<lparr>newCommitter := Some ''Eve'',
                                   newCommitterEmail := Some ''eve@example.org''\<rparr>"
  have h: "newCommitter ?options = Some ''Eve'' \<and> ''Eve'' \<noteq> [] \<and>
           newCommitterEmail ?options = Some ''eve@example.org'' \<and> ''eve@example.org'' \<noteq> []"
    by simp
  from committer_env_not_passed [where options = ?options] h
  have a: "committerEnv ?options
             = [''GIT_COMMITTER_NAME'' \<mapsto> ''Eve'', ''GIT_COMMITTER_EMAIL'' \<mapsto> ''eve@example.org'']"
    by blast
  from committer_env_not_passed [where options = fixture_options and c = "Some ''Eve''"
      and ce = "Some ''eve@example.org''" and E = fixture_ok and this = fixture_logger
      and tg = "''/dst''" and s = fixture_start]
  have b: "filter git_call
     (trace (snd (applyToRepo fixture_ok fixture_logger ''/dst'' ?options fixture_start)))
     = filter git_call
         (trace (snd (applyToRepo fixture_ok fixture_logger ''/dst'' fixture_options fixture_start)))"
    by blast
  from a b show ?thesis
    by blast
qed

section \<open>A run that the abort ends\<close>

text \<open>
  Claim C2, evaluated where it fails. The log has the two commits \<^verbatim>\<open>b2\<close> and \<^verbatim>\<open>a1\<close>.
  The patch generation for \<^verbatim>\<open>b2\<close> fails; the \<^verbatim>\<open>catch\<close> block logs hash, date and error
  and issues \<^verbatim>\<open>am --abort\<close> on the target, which fails too, since no patch application
  is in progress. That second error leaves the \<^verbatim>\<open>catch\<close> block: \<^verbatim>\<open>applyToRepo\<close> rejects
  with it, and \<^verbatim>\<open>a1\<close> is never processed.
\<close>

theorem applyToRepo_failed_abort_ends_run:
  "applyToRepo fixture_failing fixture_logger ''/dst'' fixture_options fixture_start
     = (Inl (GitError ''Resolve operation not in progress, we are not resuming.''),
        \<lparr>world = 7,
         trace =
           [CheckIsRepo ''/src'' (Inr True),
            Log ''/src'' (Inr fixture_entries),
            Show ''/src'' [''b2''] (Inr ''diff --git b2''),
            Show ''/src'' [''a1''] (Inr ''diff --git a1''),
            SimpleGit ''/dst'' None,
            CheckIsRepo ''/dst'' (Inr True),
            ConsoleLog (''Applying commits to /dst...'' @ NL),
            Raw ''/src'' [''format-patch'', ''--stdout'', ''-1'', ''--full-index'', ''--binary'',
                          ''--date-order'', ''b2'', ''-o'', ''/src'']
              (Inl (GitError ''format-patch failed'')),
            ConsoleError ''Failed to apply commit b2 from 2024-02-02:''
              (GitError ''format-patch failed''),
            Raw ''/dst'' [''am'', ''--abort'']
              (Inl (GitError ''Resolve operation not in progress, we are not resuming.''))]\<rparr>)"
  by (simp add: applyToRepo_def getCommits_defs call_defs apply_defs fixture_defs
      fixture_failing_def fixture_run_failing_def fixture_options_def emit_def console_log_def
      console_error_def Let_def)

end
